theory Spec2Isabelle
  imports Complex_Main "HOL-Library.Multiset" "HOL-Library.Sublist"
    "HOL-Library.Char_ord" "HOL-Library.List_Lexorder"
begin

section \<open>Floats\<close>

text \<open>
  A float is a finite double, read as the real number it denotes, an infinity, or NaN.
  Arithmetic on finite values is exact here: rounding, overflow and underflow are not part
  of this development. Comparison and addition follow IEEE 754 on the other values: NaN
  compares false with everything, and the sum of the two infinities is NaN.
\<close>

datatype float64 = Finite real | PosInf | NegInf | NaN

fun float_lt :: "float64 \<Rightarrow> float64 \<Rightarrow> bool" where
  "float_lt NaN _ = False"
| "float_lt _ NaN = False"
| "float_lt (Finite a) (Finite b) = (a < b)"
| "float_lt (Finite a) PosInf = True"
| "float_lt NegInf (Finite b) = True"
| "float_lt NegInf PosInf = True"
| "float_lt _ _ = False"

fun float_add :: "float64 \<Rightarrow> float64 \<Rightarrow> float64" where
  "float_add (Finite a) (Finite b) = Finite (a + b)"
| "float_add NaN _ = NaN"
| "float_add _ NaN = NaN"
| "float_add PosInf NegInf = NaN"
| "float_add NegInf PosInf = NaN"
| "float_add PosInf _ = PosInf"
| "float_add _ PosInf = PosInf"
| "float_add NegInf _ = NegInf"
| "float_add _ NegInf = NegInf"


section \<open>Storage layer (storage/db.py)\<close>

text \<open>
  Instants (\<open>datetime\<close>, naive UTC) are integers counting microseconds since the epoch,
  the resolution of Python's \<open>datetime\<close>. A \<open>Float\<close> column takes every float. The driver
  writes a NaN as NULL, and a NULL comes back as NaN in the data frame that is built from
  the rows: the value \<open>NaN\<close> of a cell stands for both.
\<close>

type_synonym datetime = int

record Tick =
  symbol :: string
  ts :: datetime
  price :: float64
  qty :: float64

text \<open>A row of table \<open>bars\<close>; the fields carry the prefix \<open>bar_\<close>.\<close>

record Bar =
  bar_symbol :: string
  bar_timeframe :: string
  bar_ts :: datetime
  bar_open :: float64
  bar_high :: float64
  bar_low :: float64
  bar_close :: float64
  bar_volume :: float64

text \<open>
  A row of the data frame that \<open>resample_ticks_to_bars\<close> returns, with its columns
  \<open>symbol, ts, open, high, low, close, volume\<close> under the prefix \<open>row_\<close>.
\<close>

record bar_row =
  row_symbol :: string
  row_ts :: datetime
  row_open :: float64
  row_high :: float64
  row_low :: float64
  row_close :: float64
  row_volume :: float64

text \<open>
  The database: both tables as the lists of their rows in rowid order (the autoincrement
  \<open>id\<close> of a row is its position). Every access happens under \<open>_db_lock\<close> in one session
  that commits before it closes, so an operation is one step on this state.
\<close>

record db =
  ticks :: "Tick list"
  bars :: "Bar list"

definition init_db :: db where
  "init_db = \<lparr>ticks = [], bars = []\<rparr>"

text \<open>\<open>insert_tick\<close> builds the row from its four arguments and adds it; it tests nothing.\<close>

definition insert_tick :: "string \<Rightarrow> datetime \<Rightarrow> float64 \<Rightarrow> float64 \<Rightarrow> db \<Rightarrow> db" where
  "insert_tick sm t p q d =
     d\<lparr>ticks := ticks d @ [\<lparr>symbol = sm, ts = t, price = p, qty = q\<rparr>]\<rparr>"

definition timedelta_minutes :: "int \<Rightarrow> int" where
  "timedelta_minutes m = m * 60000000"

text \<open>
  \<open>get_ticks\<close>: \<open>now\<close> is the value of \<open>datetime.utcnow()\<close>. The query has no
  \<open>ORDER BY\<close>. SQLite answers \<open>symbol IN (...)\<close> from the index on \<open>symbol\<close>: it visits the
  requested symbols in ascending order, each once, and the rows of one symbol in rowid
  order, and it tests the time of each row it visits. So the rows come back grouped by
  symbol, and in the order of storage within a symbol.
\<close>

definition get_ticks :: "string list \<Rightarrow> int \<Rightarrow> datetime \<Rightarrow> db \<Rightarrow> Tick list" where
  "get_ticks symbols minutes_back now d =
     (let cutoff = now - timedelta_minutes minutes_back
      in concat (map (\<lambda>s. filter (\<lambda>r. symbol r = s \<and> cutoff \<le> ts r) (ticks d))
                  (sort (remdups symbols))))"

subsection \<open>Resampling\<close>

definition freq_map :: "string \<rightharpoonup> string" where
  "freq_map = [''1s'' \<mapsto> ''1S'', ''1m'' \<mapsto> ''1T'', ''5m'' \<mapsto> ''5T'']"

definition freq_of :: "string \<Rightarrow> string" where
  "freq_of timeframe = (case freq_map timeframe of Some f \<Rightarrow> f | None \<Rightarrow> ''1T'')"

text \<open>The length in microseconds of the three pandas offsets that \<open>freq_map\<close> can give.\<close>

definition freq_width :: "string \<Rightarrow> int" where
  "freq_width f = (if f = ''1S'' then 1000000 else if f = ''5T'' then 300000000 else 60000000)"

text \<open>
  pandas puts a timestamp into the bin that starts at the last multiple of the offset at or
  before it (bins are closed on the left and labelled by their left edge; the origin is a
  midnight, and each of the three offsets divides a day).
\<close>

definition bucket_of :: "int \<Rightarrow> datetime \<Rightarrow> datetime" where
  "bucket_of w t = (t div w) * w"

text \<open>The bin labels that \<open>resample\<close> creates: every bin from that of \<open>lo\<close> to that of \<open>hi\<close>.\<close>

definition bin_labels :: "int \<Rightarrow> datetime \<Rightarrow> datetime \<Rightarrow> datetime list" where
  "bin_labels w lo hi = map (\<lambda>k. k * w) [lo div w .. hi div w]"

text \<open>
  The aggregations of one bin. Each of them skips the NaN values of its column. On a bin
  without a value, \<open>first\<close>, \<open>max\<close>, \<open>min\<close> and \<open>last\<close> give NaN and \<open>sum\<close> gives zero.
\<close>

definition notna :: "float64 list \<Rightarrow> float64 list" where
  "notna vs = filter (\<lambda>v. v \<noteq> NaN) vs"

definition first_agg :: "float64 list \<Rightarrow> float64" where
  "first_agg vs = (case notna vs of [] \<Rightarrow> NaN | x # xs \<Rightarrow> x)"

definition last_agg :: "float64 list \<Rightarrow> float64" where
  "last_agg vs = (case notna vs of [] \<Rightarrow> NaN | x # xs \<Rightarrow> last (x # xs))"

definition max_agg :: "float64 list \<Rightarrow> float64" where
  "max_agg vs = (case notna vs of [] \<Rightarrow> NaN
                 | x # xs \<Rightarrow> fold (\<lambda>v m. if float_lt m v then v else m) xs x)"

definition min_agg :: "float64 list \<Rightarrow> float64" where
  "min_agg vs = (case notna vs of [] \<Rightarrow> NaN
                 | x # xs \<Rightarrow> fold (\<lambda>v m. if float_lt v m then v else m) xs x)"

definition sum_agg :: "float64 list \<Rightarrow> float64" where
  "sum_agg vs = fold (\<lambda>v acc. float_add acc v) (notna vs) (Finite 0)"

text \<open>
  A row of \<open>merged\<close> for the bin with label \<open>b\<close>: the four price aggregates and the volume
  of the rows of the bin, and the symbol.
\<close>

definition agg_bin :: "int \<Rightarrow> string \<Rightarrow> Tick list \<Rightarrow> datetime \<Rightarrow> bar_row" where
  "agg_bin w sm sorted_sub b =
     (let g = filter (\<lambda>r. bucket_of w (ts r) = b) sorted_sub
      in \<lparr>row_symbol = sm, row_ts = b,
          row_open = first_agg (map price g),
          row_high = max_agg (map price g),
          row_low = min_agg (map price g),
          row_close = last_agg (map price g),
          row_volume = sum_agg (map qty g)\<rparr>)"

text \<open>\<open>dropna(subset=[open, high, low, close])\<close>.\<close>

definition dropna_ohlc :: "bar_row list \<Rightarrow> bar_row list" where
  "dropna_ohlc merged =
     filter (\<lambda>m. row_open m \<noteq> NaN \<and> row_high m \<noteq> NaN \<and> row_low m \<noteq> NaN \<and> row_close m \<noteq> NaN)
       merged"

text \<open>
  The body of the loop over \<open>symbols\<close> for a non-empty \<open>sub\<close>. \<open>resample\<close> sorts the rows by
  their index with a stable sort before it bins them.
\<close>

definition resample_symbol :: "int \<Rightarrow> string \<Rightarrow> Tick list \<Rightarrow> bar_row list" where
  "resample_symbol w sm sub =
     (let sorted_sub = sort_key ts sub;
          labels = bin_labels w (ts (hd sorted_sub)) (ts (last sorted_sub))
      in dropna_ohlc (map (agg_bin w sm sorted_sub) labels))"

definition bars_list_of :: "int \<Rightarrow> string list \<Rightarrow> Tick list \<Rightarrow> bar_row list list" where
  "bars_list_of w symbols df =
     map (\<lambda>sm. resample_symbol w sm (filter (\<lambda>r. symbol r = sm) df))
       (filter (\<lambda>sm. filter (\<lambda>r. symbol r = sm) df \<noteq> []) symbols)"

definition to_Bar :: "string \<Rightarrow> bar_row \<Rightarrow> Bar" where
  "to_Bar timeframe row =
     \<lparr>bar_symbol = row_symbol row, bar_timeframe = timeframe, bar_ts = row_ts row,
      bar_open = row_open row, bar_high = row_high row, bar_low = row_low row,
      bar_close = row_close row, bar_volume = row_volume row\<rparr>"

definition resample_ticks_to_bars ::
  "string list \<Rightarrow> string \<Rightarrow> int \<Rightarrow> datetime \<Rightarrow> db \<Rightarrow> bar_row list \<times> db" where
  "resample_ticks_to_bars symbols timeframe minutes_back now d =
     (let freq = freq_of timeframe;
          df = get_ticks symbols minutes_back now d
      in if df = [] then ([], d)
         else let bars_list = bars_list_of (freq_width freq) symbols df
              in if bars_list = [] then ([], d)
                 else let bars' = concat bars_list
                      in (bars', d\<lparr>bars := bars d @ map (to_Bar timeframe) bars'\<rparr>))"

text \<open>
  The ticks of one bucket: the rows of the queried frame \<open>df\<close> with symbol \<open>sm\<close> and a
  timestamp in the half-open interval of length \<open>w\<close> that starts at \<open>b\<close>.
\<close>

definition bucket_ticks :: "Tick list \<Rightarrow> string \<Rightarrow> datetime \<Rightarrow> int \<Rightarrow> Tick list" where
  "bucket_ticks df sm b w = filter (\<lambda>r. symbol r = sm \<and> b \<le> ts r \<and> ts r < b + w) df"

section \<open>Pairs analytics (analytics/pairs.py)\<close>

text \<open>
  A pandas \<open>Series\<close> of floats is the list of its rows, index label and value, in index
  order; the value \<open>None\<close> is NaN. The values are finite or NaN.
\<close>

type_synonym series = "(datetime \<times> real option) list"

datatype error = IndexError | ValueError

text \<open>
  \<open>pd.concat([px_x, px_y], axis=1, join="inner")\<close>: one row for each label of \<open>px_x\<close>
  that \<open>px_y\<close> has too, with the two values. \<open>dropna()\<close> keeps the rows without NaN.
\<close>

definition concat_inner :: "series \<Rightarrow> series \<Rightarrow> (datetime \<times> real option \<times> real option) list" where
  "concat_inner px_x px_y =
     List.map_filter
       (\<lambda>(t, vx). case map_of px_y t of None \<Rightarrow> None | Some vy \<Rightarrow> Some (t, vx, vy)) px_x"

definition dropna :: "(datetime \<times> real option \<times> real option) list \<Rightarrow> (datetime \<times> real \<times> real) list" where
  "dropna rows =
     List.map_filter
       (\<lambda>(t, vx, vy). case (vx, vy) of (Some x, Some y) \<Rightarrow> Some (t, x, y) | _ \<Rightarrow> None) rows"

definition aligned :: "series \<Rightarrow> series \<Rightarrow> (datetime \<times> real \<times> real) list" where
  "aligned px_x px_y = dropna (concat_inner px_x px_y)"

subsection \<open>The regression of statsmodels\<close>

definition mean :: "real list \<Rightarrow> real" where
  "mean xs = sum_list xs / real (length xs)"

definition Sxx :: "real list \<Rightarrow> real" where
  "Sxx xs = (\<Sum>v\<leftarrow>xs. (v - mean xs)\<^sup>2)"

definition Sxy :: "real list \<Rightarrow> real list \<Rightarrow> real" where
  "Sxy xs ys = (\<Sum>(u, v)\<leftarrow>zip xs ys. (u - mean xs) * (v - mean ys))"

text \<open>The sum of the squared residuals of the line \<open>a + b x\<close>, which least squares minimises.\<close>

definition sse :: "real \<Rightarrow> real \<Rightarrow> real list \<Rightarrow> real list \<Rightarrow> real" where
  "sse a b xs ys = (\<Sum>(u, v)\<leftarrow>zip xs ys. (v - (a + b * u))\<^sup>2)"

text \<open>
  The design matrix that \<open>add_constant\<close> returns, by its columns: the regressor alone, or
  a column of ones and the regressor.
\<close>

datatype design = Regressor_Only "real list" | Ones_And_Regressor "real list"

text \<open>
  \<open>add_constant(x)\<close> with its default \<open>has_constant='skip'\<close>: when the column is constant
  (its peak-to-peak range is zero) and non-zero, the library takes it for the constant and
  returns it as it is; otherwise it prepends a column of ones.
\<close>

definition add_constant :: "real list \<Rightarrow> design" where
  "add_constant x =
     (if list_all (\<lambda>v. v = hd x) x \<and> list_all (\<lambda>v. v \<noteq> 0) x
      then Regressor_Only x else Ones_And_Regressor x)"

text \<open>
  \<open>OLS(y, X).fit().params\<close>: the least-squares coefficients, one per column, which the
  library computes with the pseudo-inverse. For a regressor alone, this is the slope
  through the origin. With a column of ones, it is intercept and slope of the regression
  line; when the regressor is constant \<open>c\<close>, the matrix has rank one and the pseudo-inverse
  gives the solution of least norm.
\<close>

definition OLS_fit_params :: "real list \<Rightarrow> design \<Rightarrow> real list" where
  "OLS_fit_params y X =
     (case X of
        Regressor_Only x \<Rightarrow>
          [(\<Sum>(u, v)\<leftarrow>zip x y. u * v) / (\<Sum>u\<leftarrow>x. u\<^sup>2)]
      | Ones_And_Regressor x \<Rightarrow>
          if Sxx x \<noteq> 0
          then [mean y - (Sxy x y / Sxx x) * mean x, Sxy x y / Sxx x]
          else [mean y / (1 + (hd x)\<^sup>2), hd x * mean y / (1 + (hd x)\<^sup>2)])"

subsection \<open>The hedge ratio\<close>

text \<open>The result \<open>None\<close> is the float NaN that the function returns on too few rows.\<close>

definition compute_hedge_ratio :: "series \<Rightarrow> series \<Rightarrow> error + real option" where
  "compute_hedge_ratio px_x px_y =
     (let al = aligned px_x px_y
      in if length al < 10 then Inr None
         else let y = map (\<lambda>(t, vx, vy). vx) al;
                  x = map (\<lambda>(t, vx, vy). vy) al;
                  X = add_constant x;
                  params = OLS_fit_params y X
              in if 1 < length params then Inr (Some (params ! 1)) else Inl IndexError)"

subsection \<open>Spread and z-score\<close>

text \<open>
  Arithmetic of two series aligns them on their labels: a common index is kept, otherwise
  the result has the sorted union of the labels; a label that one side lacks, or a NaN on
  either side, gives NaN.
\<close>

definition series_binop :: "(real \<Rightarrow> real \<Rightarrow> real) \<Rightarrow> series \<Rightarrow> series \<Rightarrow> series" where
  "series_binop f a b =
     (let idx = (if map fst a = map fst b then map fst a
                 else sorted_list_of_set (set (map fst a) \<union> set (map fst b)))
      in map (\<lambda>t. (t, case (map_of a t, map_of b t) of
                        (Some (Some u), Some (Some v)) \<Rightarrow> Some (f u v)
                      | _ \<Rightarrow> None)) idx)"

definition scalar_mul :: "real \<Rightarrow> series \<Rightarrow> series" where
  "scalar_mul c a = map (\<lambda>(t, v). (t, map_option (\<lambda>u. c * u) v)) a"

text \<open>
  \<open>rolling(window, min_periods)\<close>: the window at position \<open>i\<close> holds the last \<open>window\<close> rows
  up to \<open>i\<close>; its observations are the values that are not NaN.
\<close>

definition window_obs :: "nat \<Rightarrow> real option list \<Rightarrow> nat \<Rightarrow> real list" where
  "window_obs w vals i = List.map_filter id (drop (Suc i - w) (take (Suc i) vals))"

definition rolling_mean :: "nat \<Rightarrow> int \<Rightarrow> real option list \<Rightarrow> real option list" where
  "rolling_mean w minp vals =
     map (\<lambda>i. let obs = window_obs w vals i
               in if minp \<le> int (length obs) \<and> 0 < length obs then Some (mean obs) else None)
       [0..<length vals]"

text \<open>The sample variance (one degree of freedom less); the library raises \<open>minp\<close> to 1.\<close>

definition rolling_var :: "nat \<Rightarrow> int \<Rightarrow> real option list \<Rightarrow> real option list" where
  "rolling_var w minp vals =
     map (\<lambda>i. let obs = window_obs w vals i
               in if max minp 1 \<le> int (length obs) \<and> 1 < length obs
                  then Some (Sxx obs / real (length obs - 1)) else None)
       [0..<length vals]"

definition rolling_std :: "nat \<Rightarrow> int \<Rightarrow> real option list \<Rightarrow> real option list" where
  "rolling_std w minp vals = map (map_option sqrt) (rolling_var w minp vals)"

text \<open>
  A quotient of floats raises nothing: a zero divisor gives NaN for a zero dividend and an
  infinity otherwise.
\<close>

fun float_div :: "real option \<Rightarrow> real option \<Rightarrow> float64" where
  "float_div (Some a) (Some b) =
     (if b \<noteq> 0 then Finite (a / b)
      else if a = 0 then NaN else if 0 < a then PosInf else NegInf)"
| "float_div _ _ = NaN"


text \<open>
  The last three statements of \<open>compute_spread_and_zscore\<close>, on the spread series: the
  rolling mean and standard deviation with \<open>min_periods = window // 2\<close>, and the quotient.
  pandas rejects a negative window with a \<open>ValueError\<close>.
\<close>

definition rolling_zscore :: "int \<Rightarrow> series \<Rightarrow> error + (datetime \<times> float64) list" where
  "rolling_zscore window spread =
     (if window < 0 then Inl ValueError
      else let roll_mean = rolling_mean (nat window) (window div 2) (map snd spread);
               roll_std = rolling_std (nat window) (window div 2) (map snd spread);
               dev = map2 (\<lambda>s m. case (s, m) of (Some u, Some v) \<Rightarrow> Some (u - v) | _ \<Rightarrow> None)
                       (map snd spread) roll_mean
           in Inr (zip (map fst spread) (map2 float_div dev roll_std)))"

definition compute_spread_and_zscore ::
  "series \<Rightarrow> series \<Rightarrow> int \<Rightarrow> error + (series \<times> (datetime \<times> float64) list)" where
  "compute_spread_and_zscore px_x px_y window =
     (case compute_hedge_ratio px_x px_y of
        Inl e \<Rightarrow> Inl e
      | Inr None \<Rightarrow> Inr ([], [])
      | Inr (Some beta) \<Rightarrow>
          let spread = series_binop (-) px_x (scalar_mul beta px_y)
          in case rolling_zscore window spread of
               Inl e \<Rightarrow> Inl e
             | Inr z \<Rightarrow> Inr (spread, z))"

section \<open>Example inputs\<close>

text \<open>
  Two price series that share the labels 1 to 10, where X is twice Y; label 0 is in X
  only and label 11 in Y only. Then a Y that stays at 1, and two short series.
\<close>

definition ex_x :: series where
  "ex_x = map (\<lambda>t. (t, Some (2 * real_of_int t))) [0..10]"

definition ex_y :: series where
  "ex_y = map (\<lambda>t. (t, Some (real_of_int t))) [1..11]"

definition flat_y :: series where
  "flat_y = map (\<lambda>t. (t, Some 1)) [1..10]"

definition ex_spread :: series where
  "ex_spread = (0, None) # map (\<lambda>t. (t, Some 0)) [1..10] @ [(11, None)]"


definition short_x :: series where
  "short_x = [(1, Some 3), (2, Some 4), (3, None)]"

definition short_y :: series where
  "short_y = [(2, Some 5), (3, Some 6), (4, Some 7)]"

text \<open>
  Four ticks: one with an empty symbol at 0 s, then symbol A at 1 s, 59 s and 301 s.
\<close>

definition example_db :: db where
  "example_db =
     insert_tick ''A'' 301000000 (Finite 3) (Finite 1)
       (insert_tick ''A'' 59000000 (Finite 5) (Finite 2)
         (insert_tick ''A'' 1000000 (Finite 4) (Finite 1)
           (insert_tick [] 0 (Finite 1) (Finite 1) init_db)))"


text \<open>Two ticks of A, the later one stored first.\<close>

definition unordered_db :: db where
  "unordered_db = insert_tick ''A'' 1 (Finite 5) (Finite 1)
     (insert_tick ''A'' 2 (Finite 6) (Finite 1) init_db)"


text \<open>Five ticks, stored with the symbols B, A, C, B, A.\<close>

definition mixed_db :: db where
  "mixed_db =
     insert_tick ''A'' 5 (Finite 1) (Finite 1)
       (insert_tick ''B'' 4 (Finite 1) (Finite 1)
         (insert_tick ''C'' 3 (Finite 1) (Finite 1)
           (insert_tick ''A'' 2 (Finite 1) (Finite 1)
             (insert_tick ''B'' 1 (Finite 1) (Finite 1) init_db))))"

section \<open>Properties of the storage layer\<close>

subsection \<open>Helper lemmas\<close>

lemma bucket_of_eq_iff:
  assumes "0 < w"
  shows "bucket_of w t = k * w \<longleftrightarrow> k * w \<le> t \<and> t < k * w + w"
proof
  assume "bucket_of w t = k * w"
  with assms have k: "t div w = k" by (simp add: bucket_of_def)
  have "t = (t div w) * w + t mod w" by simp
  with k have "t = k * w + t mod w" by simp
  moreover have "0 \<le> t mod w" "t mod w < w" using assms by simp_all
  ultimately show "k * w \<le> t \<and> t < k * w + w" by linarith
next
  assume h: "k * w \<le> t \<and> t < k * w + w"
  have "t div w = k"
  proof (rule int_div_pos_eq)
    show "t = w * k + (t - k * w)" by (simp add: mult.commute)
    show "0 \<le> t - k * w" using h by simp
    show "t - k * w < w" using h by simp
  qed
  then show "bucket_of w t = k * w" by (simp add: bucket_of_def)
qed


lemma freq_width_pos: "0 < freq_width f"
  by (simp add: freq_width_def)





lemma bin_labels_mult: "b \<in> set (bin_labels w lo hi) \<Longrightarrow> \<exists>k. b = k * w"
  by (auto simp: bin_labels_def)


text \<open>The order of the floats that are not NaN is linear.\<close>

lemma float_lt_irrefl: "\<not> float_lt a a"
  by (cases a) auto

lemma float_lt_trans: "float_lt a b \<Longrightarrow> float_lt b c \<Longrightarrow> float_lt a c"
  by (cases a; cases b; cases c) auto

lemma float_lt_total: "a \<noteq> NaN \<Longrightarrow> b \<noteq> NaN \<Longrightarrow> float_lt a b \<or> a = b \<or> float_lt b a"
  by (cases a; cases b) auto

lemma fold_max_greatest:
  assumes "\<forall>v\<in>set (x # xs). v \<noteq> NaN"
  shows "fold (\<lambda>v m. if float_lt m v then v else m) xs x \<in> set (x # xs)
       \<and> (\<forall>y\<in>set (x # xs). \<not> float_lt (fold (\<lambda>v m. if float_lt m v then v else m) xs x) y)"
  using assms
proof (induction xs arbitrary: x)
  case Nil
  then show ?case by (simp add: float_lt_irrefl)
next
  case (Cons a xs)
  define x' where "x' = (if float_lt x a then a else x)"
  define m where "m = fold (\<lambda>v m. if float_lt m v then v else m) xs x'"
  have nn: "\<forall>v\<in>set (x' # xs). v \<noteq> NaN" using Cons.prems by (auto simp: x'_def)
  from Cons.IH[OF nn] have m: "m \<in> set (x' # xs)" and g: "\<forall>y\<in>set (x' # xs). \<not> float_lt m y"
    by (simp_all add: m_def)
  have f: "fold (\<lambda>v m. if float_lt m v then v else m) (a # xs) x = m"
    by (simp add: m_def x'_def)
  have mx: "\<not> float_lt m x'" using g by simp
  have xx: "\<not> float_lt x' x" "\<not> float_lt x' a"
    using Cons.prems float_lt_total[of x a] float_lt_trans[of x a x] float_lt_irrefl
    by (auto simp: x'_def)
  have mn: "m \<noteq> NaN" using m nn by auto
  have x'n: "x' \<noteq> NaN" using nn by simp
  have le: "\<not> float_lt m y" if "\<not> float_lt x' y" "y \<noteq> NaN" for y
    using that mx mn x'n float_lt_total[of m x'] float_lt_total[of x' y] float_lt_trans
    by (metis float_lt_irrefl)
  have "\<not> float_lt m x" "\<not> float_lt m a" using le xx Cons.prems by auto
  moreover have "m \<in> set (x # a # xs)" using m by (auto simp: x'_def split: if_splits)
  ultimately show ?case using g unfolding f by auto
qed

lemma fold_min_least:
  assumes "\<forall>v\<in>set (x # xs). v \<noteq> NaN"
  shows "fold (\<lambda>v m. if float_lt v m then v else m) xs x \<in> set (x # xs)
       \<and> (\<forall>y\<in>set (x # xs). \<not> float_lt y (fold (\<lambda>v m. if float_lt v m then v else m) xs x))"
  using assms
proof (induction xs arbitrary: x)
  case Nil
  then show ?case by (simp add: float_lt_irrefl)
next
  case (Cons a xs)
  define x' where "x' = (if float_lt a x then a else x)"
  define m where "m = fold (\<lambda>v m. if float_lt v m then v else m) xs x'"
  have nn: "\<forall>v\<in>set (x' # xs). v \<noteq> NaN" using Cons.prems by (auto simp: x'_def)
  from Cons.IH[OF nn] have m: "m \<in> set (x' # xs)" and g: "\<forall>y\<in>set (x' # xs). \<not> float_lt y m"
    by (simp_all add: m_def)
  have f: "fold (\<lambda>v m. if float_lt v m then v else m) (a # xs) x = m"
    by (simp add: m_def x'_def)
  have mx: "\<not> float_lt x' m" using g by simp
  have xx: "\<not> float_lt x x'" "\<not> float_lt a x'"
    using Cons.prems float_lt_total[of a x] float_lt_trans[of a x a] float_lt_irrefl
    by (auto simp: x'_def)
  have mn: "m \<noteq> NaN" using m nn by auto
  have x'n: "x' \<noteq> NaN" using nn by simp
  have le: "\<not> float_lt y m" if "\<not> float_lt y x'" "y \<noteq> NaN" for y
    using that mx mn x'n float_lt_total[of x' m] float_lt_total[of y x'] float_lt_trans
    by (metis float_lt_irrefl)
  have "\<not> float_lt x m" "\<not> float_lt a m" using le xx Cons.prems by auto
  moreover have "m \<in> set (x # a # xs)" using m by (auto simp: x'_def split: if_splits)
  ultimately show ?case using g unfolding f by auto
qed

lemma notna_set: "set (notna vs) = {v \<in> set vs. v \<noteq> NaN}"
  by (auto simp: notna_def)

lemma first_agg_notna: "first_agg vs \<noteq> NaN \<longleftrightarrow> notna vs \<noteq> []"
proof (cases "notna vs")
  case Nil
  then show ?thesis by (simp add: first_agg_def)
next
  case (Cons x xs)
  then have "x \<in> set (notna vs)" by simp
  then have "x \<noteq> NaN" by (simp add: notna_set)
  with Cons show ?thesis by (simp add: first_agg_def)
qed

lemma first_agg_hd: "notna vs \<noteq> [] \<Longrightarrow> first_agg vs = hd (notna vs)"
  by (cases "notna vs") (simp_all add: first_agg_def)

lemma last_agg_last: "notna vs \<noteq> [] \<Longrightarrow> last_agg vs = last (notna vs)"
  by (cases "notna vs") (simp_all add: last_agg_def)


lemma max_agg_greatest:
  assumes "notna vs \<noteq> []"
  shows "max_agg vs \<in> set (notna vs) \<and> (\<forall>p\<in>set (notna vs). \<not> float_lt (max_agg vs) p)"
proof -
  from assms obtain x xs where c: "notna vs = x # xs" by (cases "notna vs") auto
  have "\<forall>v\<in>set (x # xs). v \<noteq> NaN" using notna_set[of vs] c by auto
  from fold_max_greatest[OF this] show ?thesis by (simp add: max_agg_def c)
qed

lemma min_agg_least:
  assumes "notna vs \<noteq> []"
  shows "min_agg vs \<in> set (notna vs) \<and> (\<forall>p\<in>set (notna vs). \<not> float_lt p (min_agg vs))"
proof -
  from assms obtain x xs where c: "notna vs = x # xs" by (cases "notna vs") auto
  have "\<forall>v\<in>set (x # xs). v \<noteq> NaN" using notna_set[of vs] c by auto
  from fold_min_least[OF this] show ?thesis by (simp add: min_agg_def c)
qed



text \<open>The query: one group per requested symbol.\<close>

lemma grouped_filter:
  assumes "distinct L"
  shows "filter (\<lambda>r. symbol r = sm) (concat (map (\<lambda>s. filter (\<lambda>r. symbol r = s \<and> P r) T) L))
       = (if sm \<in> set L then filter (\<lambda>r. symbol r = sm \<and> P r) T else [])"
  using assms
proof (induction L)
  case Nil
  then show ?case by simp
next
  case (Cons s L)
  have a: "filter (\<lambda>r. symbol r = sm) (filter (\<lambda>r. symbol r = s \<and> P r) T)
       = (if s = sm then filter (\<lambda>r. symbol r = sm \<and> P r) T else [])"
    by (induction T) auto
  from Cons have IH: "filter (\<lambda>r. symbol r = sm) (concat (map (\<lambda>s. filter (\<lambda>r. symbol r = s \<and> P r) T) L))
       = (if sm \<in> set L then filter (\<lambda>r. symbol r = sm \<and> P r) T else [])"
    and n: "s \<notin> set L" by simp_all
  have "filter (\<lambda>r. symbol r = sm) (concat (map (\<lambda>s. filter (\<lambda>r. symbol r = s \<and> P r) T) (s # L)))
      = (if s = sm then filter (\<lambda>r. symbol r = sm \<and> P r) T else [])
        @ (if sm \<in> set L then filter (\<lambda>r. symbol r = sm \<and> P r) T else [])"
    by (simp only: list.map concat.simps filter_append a IH)
  also have "\<dots> = (if sm \<in> set (s # L) then filter (\<lambda>r. symbol r = sm \<and> P r) T else [])"
    using n by auto
  finally show ?case .
qed

lemma grouped_mset:
  assumes "distinct L"
  shows "mset (concat (map (\<lambda>s. filter (\<lambda>r. symbol r = s \<and> P r) T) L))
       = filter_mset (\<lambda>r. symbol r \<in> set L \<and> P r) (mset T)"
  using assms
proof (induction L)
  case Nil
  then show ?case by simp
next
  case (Cons s L)
  then have "s \<notin> set L" by simp
  then have "filter_mset (\<lambda>r. symbol r = s \<and> P r) (mset T)
        + filter_mset (\<lambda>r. symbol r \<in> set L \<and> P r) (mset T)
      = filter_mset (\<lambda>r. symbol r \<in> set (s # L) \<and> P r) (mset T)"
    by (intro multiset_eqI) auto
  with Cons show ?case by simp
qed

lemma get_ticks_symbol:
  "filter (\<lambda>r. symbol r = sm) (get_ticks symbols minutes_back now d) =
     filter (\<lambda>r. symbol r = sm \<and> sm \<in> set symbols \<and> now - minutes_back * 60000000 \<le> ts r) (ticks d)"
  by (simp add: get_ticks_def Let_def timedelta_minutes_def grouped_filter)

lemma get_ticks_mset:
  "mset (get_ticks symbols minutes_back now d) =
     filter_mset (\<lambda>r. symbol r \<in> set symbols \<and> now - minutes_back * 60000000 \<le> ts r)
       (mset (ticks d))"
  by (simp add: get_ticks_def Let_def timedelta_minutes_def grouped_mset)

lemma get_ticks_set:
  "set (get_ticks symbols minutes_back now d) =
     {r \<in> set (ticks d). symbol r \<in> set symbols \<and> now - minutes_back * 60000000 \<le> ts r}"
proof -
  have "set (get_ticks symbols minutes_back now d) = set_mset (mset (get_ticks symbols minutes_back now d))"
    by simp
  also have "\<dots> = {r \<in> set (ticks d). symbol r \<in> set symbols \<and> now - minutes_back * 60000000 \<le> ts r}"
    unfolding get_ticks_mset by auto
  finally show ?thesis .
qed

lemma get_ticks_bars_update: "get_ticks s mb now (d\<lparr>bars := b\<rparr>) = get_ticks s mb now d"
  by (simp add: get_ticks_def)

text \<open>A row survives \<open>dropna\<close> only if its bin holds a price, and then it aggregates that bin.\<close>

lemma resample_symbol_row:
  assumes w: "0 < w" and row: "row \<in> set (resample_symbol w sm sub)"
  defines "B \<equiv> filter (\<lambda>r. row_ts row \<le> ts r \<and> ts r < row_ts row + w) sub"
  defines "P \<equiv> notna (map price (sort_key ts B))"
  shows "P \<noteq> [] \<and> row_symbol row = sm \<and> row_open row = hd P \<and> row_close row = last P
     \<and> row_high row \<in> set P \<and> (\<forall>p\<in>set P. \<not> float_lt (row_high row) p)
     \<and> row_low row \<in> set P \<and> (\<forall>p\<in>set P. \<not> float_lt p (row_low row))
     \<and> row_volume row = sum_agg (map qty (sort_key ts B))"
proof -
  define S where "S = sort_key ts sub"
  from row obtain b where
    b: "b \<in> set (bin_labels w (ts (hd S)) (ts (last S)))"
    and r: "row = agg_bin w sm S b" and o: "row_open row \<noteq> NaN"
    by (auto simp: resample_symbol_def Let_def dropna_ohlc_def S_def)
  from bin_labels_mult[OF b] obtain k where k: "b = k * w" by blast
  define g where "g = filter (\<lambda>r. bucket_of w (ts r) = b) S"
  have f: "row_symbol row = sm" "row_ts row = b" "row_open row = first_agg (map price g)"
    "row_high row = max_agg (map price g)" "row_low row = min_agg (map price g)"
    "row_close row = last_agg (map price g)" "row_volume row = sum_agg (map qty g)"
    by (simp_all add: r agg_bin_def Let_def g_def)
  have eq: "bucket_of w (ts r) = b \<longleftrightarrow> row_ts row \<le> ts r \<and> ts r < row_ts row + w" for r
    using bucket_of_eq_iff[OF w] k f(2) by auto
  have g: "g = sort_key ts B" by (simp add: g_def B_def S_def filter_sort eq)
  have P: "P = notna (map price g)" by (simp add: P_def g)
  have ne: "P \<noteq> []" using o f(3) first_agg_notna[of "map price g"] by (simp add: P)
  show ?thesis
    using ne f first_agg_hd[of "map price g"] last_agg_last[of "map price g"]
      max_agg_greatest[of "map price g"] min_agg_least[of "map price g"]
    by (simp add: P[symmetric] g[symmetric])
qed


lemma resample_row_symbol:
  assumes "row \<in> set (fst (resample_ticks_to_bars symbols timeframe minutes_back now d))"
  shows "\<exists>sm\<in>set symbols. row \<in> set (resample_symbol (freq_width (freq_of timeframe)) sm
           (filter (\<lambda>r. symbol r = sm) (get_ticks symbols minutes_back now d)))"
  using assms
  by (auto simp: resample_ticks_to_bars_def bars_list_of_def Let_def split: if_splits)

lemma resample_bar_core:
  assumes "row \<in> set (fst (resample_ticks_to_bars symbols timeframe minutes_back now d))"
  defines "B \<equiv> bucket_ticks (get_ticks symbols minutes_back now d) (row_symbol row) (row_ts row)
                  (freq_width (freq_of timeframe))"
  defines "P \<equiv> notna (map price (sort_key ts B))"
  shows "P \<noteq> [] \<and> row_open row = hd P \<and> row_close row = last P
     \<and> row_high row \<in> set P \<and> (\<forall>p\<in>set P. \<not> float_lt (row_high row) p)
     \<and> row_low row \<in> set P \<and> (\<forall>p\<in>set P. \<not> float_lt p (row_low row))
     \<and> row_volume row = sum_agg (map qty (sort_key ts B))"
proof -
  from resample_row_symbol[OF assms(1)] obtain sm where
    r: "row \<in> set (resample_symbol (freq_width (freq_of timeframe)) sm
           (filter (\<lambda>r. symbol r = sm) (get_ticks symbols minutes_back now d)))"
    by blast
  note c = resample_symbol_row[OF freq_width_pos r]
  from c have s: "row_symbol row = sm" by simp
  have "B = filter (\<lambda>r. row_ts row \<le> ts r \<and> ts r < row_ts row + freq_width (freq_of timeframe))
      (filter (\<lambda>r. symbol r = sm) (get_ticks symbols minutes_back now d))"
    by (simp add: B_def bucket_ticks_def s conj_commute conj_left_commute cong: conj_cong)
  with c show ?thesis unfolding P_def by simp
qed


lemma resample_persists:
  "bars (snd (resample_ticks_to_bars s tf mb now d)) =
     bars d @ map (to_Bar tf) (fst (resample_ticks_to_bars s tf mb now d))"
  by (simp add: resample_ticks_to_bars_def Let_def)

lemma resample_again:
  "fst (resample_ticks_to_bars s tf mb now (snd (resample_ticks_to_bars s tf mb now d))) =
     fst (resample_ticks_to_bars s tf mb now d)"
  by (simp add: resample_ticks_to_bars_def Let_def get_ticks_bars_update)

lemma notna_all: "\<forall>v\<in>set vs. v \<noteq> NaN \<Longrightarrow> notna vs = vs"
  by (simp add: notna_def)


text \<open>On a bucket whose ticks all have a price, the bar is the one of the plain reading.\<close>

lemma resample_bar_finite_prices:
  assumes "row \<in> set (fst (resample_ticks_to_bars symbols timeframe minutes_back now d))"
  defines "B \<equiv> bucket_ticks (get_ticks symbols minutes_back now d) (row_symbol row) (row_ts row)
                  (freq_width (freq_of timeframe))"
  assumes p: "\<forall>r\<in>set B. price r \<noteq> NaN"
  shows "B \<noteq> [] \<and> row_open row = price (hd (sort_key ts B))
       \<and> row_close row = price (last (sort_key ts B))
       \<and> row_high row \<in> price ` set B \<and> (\<forall>r\<in>set B. \<not> float_lt (row_high row) (price r))
       \<and> row_low row \<in> price ` set B \<and> (\<forall>r\<in>set B. \<not> float_lt (price r) (row_low row))"
proof -
  have n: "notna (map price (sort_key ts B)) = map price (sort_key ts B)"
    using p by (intro notna_all) simp
  note c = resample_bar_core[OF assms(1), folded B_def, unfolded n]
  from c have ne: "sort_key ts B \<noteq> []" by auto
  then have "B \<noteq> []" by auto
  with c ne show ?thesis by (simp add: hd_map last_map)
qed

lemma get_ticks_insert_tick:
  "mset (get_ticks symbols minutes_back now (insert_tick sm t p q d)) =
     mset (get_ticks symbols minutes_back now d)
     + (if sm \<in> set symbols \<and> now - minutes_back * 60000000 \<le> t
        then {#\<lparr>symbol = sm, ts = t, price = p, qty = q\<rparr>#} else {#})"
  by (simp add: get_ticks_mset insert_tick_def)

lemma mixed_db_grouped:
  "map (\<lambda>r. (symbol r, ts r)) (get_ticks [''B'', ''A''] 0 0 mixed_db) =
     [(''A'', 2), (''A'', 5), (''B'', 1), (''B'', 4)]"
  by code_simp

subsection \<open>Bars aggregate their bucket\<close>




subsection \<open>Empty buckets\<close>

text \<open>
  C9. A bucket of a symbol that holds none of the queried ticks contributes no bar: no
  returned row carries that symbol and that bucket start.
\<close>

theorem empty_bucket_no_bar:
  assumes "bucket_ticks (get_ticks symbols minutes_back now d) sm b
             (freq_width (freq_of timeframe)) = []"
  shows "\<forall>row\<in>set (fst (resample_ticks_to_bars symbols timeframe minutes_back now d)).
           \<not> (row_symbol row = sm \<and> row_ts row = b)"
proof (intro ballI notI)
  fix row
  assume r: "row \<in> set (fst (resample_ticks_to_bars symbols timeframe minutes_back now d))"
    and e: "row_symbol row = sm \<and> row_ts row = b"
  from resample_bar_core[OF r] e assms show False by (simp add: notna_def)
qed

theorem empty_bucket_no_bar_witness:
  "bucket_ticks (get_ticks [''A''] 60 0 example_db) ''A'' 60000000 (freq_width (freq_of ''1m'')) = []
   \<and> fst (resample_ticks_to_bars [''A''] ''1m'' 60 0 example_db) \<noteq> []
   \<and> \<not> (\<exists>row\<in>set (fst (resample_ticks_to_bars [''A''] ''1m'' 60 0 example_db)).
           row_symbol row = ''A'' \<and> row_ts row = 60000000)"
proof -
  have h: "bucket_ticks (get_ticks [''A''] 60 0 example_db) ''A'' 60000000
             (freq_width (freq_of ''1m'')) = []"
    by code_simp
  have n: "fst (resample_ticks_to_bars [''A''] ''1m'' 60 0 example_db) \<noteq> []"
    by code_simp
  show ?thesis using h n empty_bucket_no_bar[OF h] by blast
qed

subsection \<open>Unknown timeframes\<close>

text \<open>
  C2, as stated, asks for an error on a timeframe outside 1s, 1m, 5m. The code has no such
  error: on the timeframe 2h the example store yields the bars of the buckets of one
  minute that start at 0 s and at 300 s.
\<close>

theorem unknown_timeframe_counterexample:
  "fst (resample_ticks_to_bars [''A''] ''2h'' 60 0 example_db) =
     [\<lparr>row_symbol = ''A'', row_ts = 0, row_open = Finite 4, row_high = Finite 5,
        row_low = Finite 4, row_close = Finite 5, row_volume = Finite 3\<rparr>,
      \<lparr>row_symbol = ''A'', row_ts = 300000000, row_open = Finite 3, row_high = Finite 3,
        row_low = Finite 3, row_close = Finite 3, row_volume = Finite 1\<rparr>]"
  by code_simp

text \<open>
  C2, amended. For a timeframe outside 1s, 1m, 5m the function returns what it returns for
  1m, and stores these bars under the timeframe it was given.
\<close>

theorem unknown_timeframe_defaults_to_minute:
  assumes "timeframe \<notin> {''1s'', ''1m'', ''5m''}"
  shows "fst (resample_ticks_to_bars symbols timeframe minutes_back now d) =
           fst (resample_ticks_to_bars symbols ''1m'' minutes_back now d)
       \<and> bars (snd (resample_ticks_to_bars symbols timeframe minutes_back now d)) =
           bars d @ map (to_Bar timeframe)
             (fst (resample_ticks_to_bars symbols ''1m'' minutes_back now d))"
proof -
  from assms have "freq_of timeframe = freq_of ''1m''"
    by (simp add: freq_of_def freq_map_def)
  then have "fst (resample_ticks_to_bars symbols timeframe minutes_back now d) =
           fst (resample_ticks_to_bars symbols ''1m'' minutes_back now d)"
    by (simp add: resample_ticks_to_bars_def Let_def)
  then show ?thesis using resample_persists[of symbols timeframe minutes_back now d] by simp
qed

theorem unknown_timeframe_defaults_to_minute_witness:
  "''2h'' \<notin> {''1s'', ''1m'', ''5m''}
   \<and> fst (resample_ticks_to_bars [''A''] ''2h'' 60 0 example_db) =
           fst (resample_ticks_to_bars [''A''] ''1m'' 60 0 example_db)
   \<and> bars (snd (resample_ticks_to_bars [''A''] ''2h'' 60 0 example_db)) =
           bars example_db @ map (to_Bar ''2h'')
             (fst (resample_ticks_to_bars [''A''] ''1m'' 60 0 example_db))"
proof -
  have h: "''2h'' \<notin> {''1s'', ''1m'', ''5m''}" by simp
  show ?thesis by (rule conjI[OF h unknown_timeframe_defaults_to_minute[OF h]])
qed

subsection \<open>Persisted bars\<close>

text \<open>
  C3, as stated, asks for one stored row per symbol, timeframe and bucket start. After two
  calls over the same single tick the table \<open>bars\<close> holds two rows with the same key.
\<close>

theorem persist_twice_counterexample:
  "map (\<lambda>b. (bar_symbol b, bar_timeframe b, bar_ts b))
     (bars (snd (resample_ticks_to_bars [''A''] ''1m'' 60 0
        (snd (resample_ticks_to_bars [''A''] ''1m'' 60 0
           (insert_tick ''A'' 1000000 (Finite 4) (Finite 1) init_db)))))) =
   [(''A'', ''1m'', 0), (''A'', ''1m'', 0)]"
  by code_simp

text \<open>
  C3, amended. Each call appends one row per returned bar to the table \<open>bars\<close> and leaves
  the ticks as they are; a second call with the same arguments returns the same bars again,
  so that after it the table holds the rows of the first call twice.
\<close>

theorem persist_appends_every_call:
  "(let r1 = resample_ticks_to_bars symbols timeframe minutes_back now d;
        r2 = resample_ticks_to_bars symbols timeframe minutes_back now (snd r1)
    in fst r2 = fst r1
     \<and> ticks (snd r1) = ticks d
     \<and> bars (snd r1) = bars d @ map (to_Bar timeframe) (fst r1)
     \<and> bars (snd r2) = bars d @ map (to_Bar timeframe) (fst r1) @ map (to_Bar timeframe) (fst r1))"
proof -
  have t: "ticks (snd (resample_ticks_to_bars symbols timeframe minutes_back now d)) = ticks d"
    by (simp add: resample_ticks_to_bars_def Let_def)
  show ?thesis
    unfolding Let_def
    using t resample_persists[of symbols timeframe minutes_back now d]
      resample_persists[of symbols timeframe minutes_back now
        "snd (resample_ticks_to_bars symbols timeframe minutes_back now d)"]
      resample_again[of symbols timeframe minutes_back now d]
    by simp
qed

subsection \<open>Appending ticks\<close>

text \<open>
  C4, as stated, asks \<open>insert_tick\<close> to reject a tick with an empty symbol and to record
  nothing. The code records it.
\<close>

theorem insert_empty_symbol_counterexample:
  "ticks (insert_tick [] 0 (Finite 1) (Finite 1) init_db) =
     [\<lparr>symbol = [], ts = 0, price = Finite 1, qty = Finite 1\<rparr>]"
  by (simp add: insert_tick_def init_db_def)

text \<open>
  C4, amended. \<open>insert_tick\<close> checks nothing. For every symbol, the empty one too, every
  time and every price and quantity, NaN and the infinities too, it appends one row with
  these four values to the table \<open>ticks\<close>, after the rows that were there, and leaves the
  table \<open>bars\<close> as it is. Every later query returns the ticks it returned before and, when
  the symbol is among the requested ones and the time not before the cutoff, this tick once
  more.
\<close>

theorem insert_tick_appends:
  "ticks (insert_tick sm t p q d) = ticks d @ [\<lparr>symbol = sm, ts = t, price = p, qty = q\<rparr>]
   \<and> bars (insert_tick sm t p q d) = bars d
   \<and> mset (get_ticks symbols minutes_back now (insert_tick sm t p q d)) =
       mset (get_ticks symbols minutes_back now d)
       + (if sm \<in> set symbols \<and> now - minutes_back * 60000000 \<le> t
          then {#\<lparr>symbol = sm, ts = t, price = p, qty = q\<rparr>#} else {#})"
  using get_ticks_insert_tick[of symbols minutes_back now sm t p q d]
  by (simp add: insert_tick_def)

subsection \<open>Querying ticks\<close>

text \<open>
  C8, as stated, asks for the ticks of a half-open range in ascending time order per
  symbol. With the current time 1 and no minutes back, the query returns the tick of time
  2 before the tick of time 1: the range has no upper end, and the ticks of a symbol come
  in the order of storage.
\<close>

theorem get_ticks_order_counterexample:
  "map ts (get_ticks [''A''] 0 1 unordered_db) = [2, 1]"
  by code_simp

text \<open>
  C8, amended. \<open>get_ticks\<close> returns exactly the stored ticks whose symbol is among the
  requested ones and whose time is at or after the cutoff, each as often as it is stored.
  The ticks of one symbol come in the order of storage, whatever their times; the order
  between ticks of different symbols is not part of the claim. The result is empty when no
  tick matches.
\<close>

theorem get_ticks_exact:
  "mset (get_ticks symbols minutes_back now d) =
     filter_mset (\<lambda>r. symbol r \<in> set symbols \<and> now - minutes_back * 60000000 \<le> ts r)
       (mset (ticks d))
   \<and> (\<forall>s. filter (\<lambda>r. symbol r = s) (get_ticks symbols minutes_back now d) =
          filter (\<lambda>r. symbol r = s \<and> s \<in> set symbols \<and> now - minutes_back * 60000000 \<le> ts r)
            (ticks d))
   \<and> (get_ticks symbols minutes_back now d = [] \<longleftrightarrow>
        \<not> (\<exists>r\<in>set (ticks d). symbol r \<in> set symbols \<and> now - minutes_back * 60000000 \<le> ts r))"
proof -
  have "get_ticks symbols minutes_back now d = [] \<longleftrightarrow> set (get_ticks symbols minutes_back now d) = {}"
    by simp
  also have "\<dots> \<longleftrightarrow> \<not> (\<exists>r\<in>set (ticks d). symbol r \<in> set symbols \<and> now - minutes_back * 60000000 \<le> ts r)"
    unfolding get_ticks_set by auto
  finally show ?thesis using get_ticks_mset get_ticks_symbol by blast
qed

theorem get_ticks_exact_witness:
  "\<not> (\<exists>r\<in>set (ticks unordered_db). symbol r \<in> set [''B''] \<and> 1 - 0 * 60000000 \<le> ts r)
   \<and> get_ticks [''B''] 0 1 unordered_db = []
   \<and> filter (\<lambda>r. symbol r = ''A'') (get_ticks [''B'', ''A''] 0 0 mixed_db) =
       filter (\<lambda>r. symbol r = ''A'' \<and> ''A'' \<in> set [''B'', ''A''] \<and> 0 - 0 * 60000000 \<le> ts r)
         (ticks mixed_db)"
proof -
  have h: "\<not> (\<exists>r\<in>set (ticks unordered_db). symbol r \<in> set [''B''] \<and> 1 - 0 * 60000000 \<le> ts r)"
    by (simp add: unordered_db_def insert_tick_def init_db_def)
  show ?thesis
    using h get_ticks_exact[of "[''B'']" 0 1 unordered_db]
      get_ticks_exact[of "[''B'', ''A'']" 0 0 mixed_db]
    by blast
qed

section \<open>Properties of the pairs analytics\<close>

subsection \<open>Helper lemmas\<close>

lemma in_set_map_filter:
  "y \<in> set (List.map_filter f xs) \<longleftrightarrow> (\<exists>x\<in>set xs. f x = Some y)"
  by (induction xs) (auto split: option.splits)





lemma length_map_filter_le: "length (List.map_filter f xs) \<le> length xs"
  by (induction xs) (auto split: option.splits)

lemma window_obs_length: "length (window_obs w vals i) \<le> w"
proof -
  have "length (window_obs w vals i) \<le> length (drop (Suc i - w) (take (Suc i) vals))"
    unfolding window_obs_def by (rule length_map_filter_le)
  also have "\<dots> \<le> w" by simp
  finally show ?thesis .
qed

lemma last_in_window:
  assumes "i < length vals" "0 < w" "vals ! i = Some u"
  shows "u \<in> set (window_obs w vals i)"
proof -
  have "take (Suc i) vals = take i vals @ [vals ! i]"
    using assms(1) by (rule take_Suc_conv_app_nth)
  moreover have "Suc i - w \<le> length (take i vals)" using assms(1,2) by simp
  ultimately have "drop (Suc i - w) (take (Suc i) vals) = drop (Suc i - w) (take i vals) @ [Some u]"
    using assms by (simp add: min_def)
  then show ?thesis
    by (simp add: window_obs_def in_set_map_filter)
qed

lemma Sxx_zero_all_mean:
  assumes "Sxx obs = 0" "v \<in> set obs"
  shows "v = mean obs"
proof -
  have "\<forall>x\<in>set (map (\<lambda>v. (v - mean obs)\<^sup>2) obs). x = 0"
  proof (subst sum_list_nonneg_eq_0_iff[symmetric])
    show "\<And>x. x \<in> set (map (\<lambda>v. (v - mean obs)\<^sup>2) obs) \<Longrightarrow> 0 \<le> x" by auto
    show "sum_list (map (\<lambda>v. (v - mean obs)\<^sup>2) obs) = 0" using assms(1) by (simp add: Sxx_def)
  qed
  with assms(2) show ?thesis by auto
qed

lemma rolling_mean_nth:
  "i < length vals \<Longrightarrow> rolling_mean w minp vals ! i =
     (let obs = window_obs w vals i
      in if minp \<le> int (length obs) \<and> 0 < length obs then Some (mean obs) else None)"
  by (simp add: rolling_mean_def)

lemma rolling_std_nth:
  "i < length vals \<Longrightarrow> rolling_std w minp vals ! i =
     (let obs = window_obs w vals i
      in if max minp 1 \<le> int (length obs) \<and> 1 < length obs
         then Some (sqrt (Sxx obs / real (length obs - 1))) else None)"
  by (simp add: rolling_std_def rolling_var_def Let_def)

lemma length_rolling [simp]:
  "length (rolling_mean w minp vals) = length vals"
  "length (rolling_std w minp vals) = length vals"
  by (simp_all add: rolling_mean_def rolling_std_def rolling_var_def)

text \<open>
  Over exact arithmetic a zero standard deviation leaves a zero deviation, and the quotient
  is NaN.
\<close>

lemma zero_std_dev:
  assumes i: "i < length vals" and s: "rolling_std w minp vals ! i = Some 0"
  shows "float_div (case (vals ! i, rolling_mean w minp vals ! i) of
            (Some u, Some v) \<Rightarrow> Some (u - v) | _ \<Rightarrow> None) (Some 0) = NaN"
proof (cases "vals ! i")
  case None
  then show ?thesis by simp
next
  case (Some u)
  define obs where "obs = window_obs w vals i"
  from s i have n: "max minp 1 \<le> int (length obs)" "1 < length obs"
    and q: "sqrt (Sxx obs / real (length obs - 1)) = 0"
    by (auto simp: rolling_std_nth obs_def Let_def split: if_splits)
  from q n(2) have z: "Sxx obs = 0" by simp
  have "0 < w" using window_obs_length[of w vals i] n(2) by (simp add: obs_def)
  from last_in_window[OF i this Some] have "u \<in> set obs" by (simp add: obs_def)
  with z have u: "u = mean obs" by (rule Sxx_zero_all_mean)
  have "obs \<noteq> []" using n(2) by auto
  then have "rolling_mean w minp vals ! i = Some (mean obs)"
    using i n by (simp add: rolling_mean_nth obs_def[symmetric])
  with Some u show ?thesis by simp
qed

lemma map_fst_scalar_mul [simp]: "map fst (scalar_mul c a) = map fst a"
  by (induction a) (auto simp: scalar_mul_def)

lemma map_of_scalar_mul:
  "map_of (scalar_mul c a) t = map_option (map_option (\<lambda>u. c * u)) (map_of a t)"
  by (induction a) (auto simp: scalar_mul_def)

lemma map_fst_series_binop:
  "map fst (series_binop f a b) =
     (if map fst a = map fst b then map fst a
      else sorted_list_of_set (set (map fst a) \<union> set (map fst b)))"
  by (simp add: series_binop_def Let_def comp_def)

lemma series_binop_index:
  "set (map fst (series_binop f a b)) = set (map fst a) \<union> set (map fst b)"
proof (cases "map fst a = map fst b")
  case True
  then have "set (map fst a) = set (map fst b)" by simp
  with True show ?thesis unfolding map_fst_series_binop by auto
next
  case False
  then show ?thesis unfolding map_fst_series_binop by simp
qed

lemma series_binop_distinct:
  "distinct (map fst a) \<Longrightarrow> distinct (map fst (series_binop f a b))"
  unfolding map_fst_series_binop by auto

lemma series_binop_value:
  assumes "(t, v) \<in> set (series_binop f a b)"
  shows "v = (case (map_of a t, map_of b t) of
                (Some (Some x), Some (Some y)) \<Rightarrow> Some (f x y) | _ \<Rightarrow> None)"
  using assms by (auto simp: series_binop_def Let_def)

lemma rolling_zscore_ok: "0 \<le> window \<Longrightarrow> \<exists>z. rolling_zscore window spread = Inr z"
  by (simp add: rolling_zscore_def Let_def)

lemma series_binop_entry:
  assumes "t \<in> set (map fst (series_binop f a b))"
  shows "(t, case (map_of a t, map_of b t) of
                (Some (Some x), Some (Some y)) \<Rightarrow> Some (f x y) | _ \<Rightarrow> None)
          \<in> set (series_binop f a b)"
proof -
  define idx where "idx = (if map fst a = map fst b then map fst a
                 else sorted_list_of_set (set (map fst a) \<union> set (map fst b)))"
  have "t \<in> set idx" using assms unfolding map_fst_series_binop idx_def .
  then show ?thesis
    unfolding series_binop_def Let_def idx_def[symmetric] by (simp add: image_iff)
qed

lemma hedge_ratio_few:
  "length (aligned px_x px_y) < 10 \<Longrightarrow> compute_hedge_ratio px_x px_y = Inr None"
  by (simp add: compute_hedge_ratio_def)

text \<open>
  The second coefficient of the fit with a column of ones is the slope of the regression
  line: together with its intercept it minimises the sum of the squared residuals. It is
  what \<open>compute_hedge_ratio\<close> returns on ten or more aligned rows whose Y varies.
\<close>

lemma sum_list_zip_nth:
  assumes "length xs = length ys"
  shows "(\<Sum>(u, v)\<leftarrow>zip xs ys. f u v) = (\<Sum>i<length xs. f (xs ! i) (ys ! i))"
proof -
  have "(\<Sum>(u, v)\<leftarrow>zip xs ys. f u v) = (\<Sum>i = 0..<length (zip xs ys). case (zip xs ys) ! i of (u, v) \<Rightarrow> f u v)"
    by (simp add: sum_list_sum_nth)
  also have "\<dots> = (\<Sum>i = 0..<length xs. f (xs ! i) (ys ! i))"
    using assms by (intro sum.cong) auto
  finally show ?thesis by (simp add: atLeast0LessThan)
qed

lemma sum_list_nth': "sum_list xs = (\<Sum>i<length xs. xs ! i)"
  by (simp add: sum_list_sum_nth atLeast0LessThan)

lemma sum_list_map_nth: "(\<Sum>u\<leftarrow>xs. f u) = (\<Sum>i<length xs. f (xs ! i))"
proof -
  have "(\<Sum>u\<leftarrow>xs. f u) = (\<Sum>i = 0..<length (map f xs). map f xs ! i)"
    by (rule sum_list_sum_nth)
  also have "\<dots> = (\<Sum>i = 0..<length xs. f (xs ! i))"
    by (intro sum.cong) auto
  finally show ?thesis by (simp add: atLeast0LessThan)
qed

lemma ols_minimises:
  assumes len: "length xs = length ys" and ne: "xs \<noteq> []" and nd: "Sxx xs \<noteq> 0"
  defines "b \<equiv> Sxy xs ys / Sxx xs"
  defines "a \<equiv> mean ys - b * mean xs"
  shows "sse a b xs ys \<le> sse a' b' xs ys"
proof -
  define n where "n = length xs"
  define X where "X i = xs ! i - mean xs" for i
  define Y where "Y i = ys ! i - mean ys" for i
  define r where "r i = Y i - b * X i" for i
  define c where "c = (a - a') + (b - b') * mean xs"
  define e where "e = b - b'"
  have n0: "real n \<noteq> 0" using ne by (simp add: n_def)
  have sX: "(\<Sum>i<n. X i) = 0"
  proof -
    have "(\<Sum>i<n. X i) = (\<Sum>i<n. xs ! i) - real n * mean xs"
      by (simp add: X_def sum_subtractf)
    also have "\<dots> = 0" using n0 by (simp add: mean_def sum_list_nth' n_def)
    finally show ?thesis .
  qed
  have sY: "(\<Sum>i<n. Y i) = 0"
  proof -
    have "(\<Sum>i<n. Y i) = (\<Sum>i<n. ys ! i) - real n * mean ys"
      by (simp add: Y_def sum_subtractf)
    also have "\<dots> = 0" using n0 len by (simp add: mean_def sum_list_nth' n_def)
    finally show ?thesis .
  qed
  have xx: "Sxx xs = (\<Sum>i<n. X i * X i)"
    by (simp add: Sxx_def sum_list_map_nth X_def n_def power2_eq_square)
  have xy: "Sxy xs ys = (\<Sum>i<n. X i * Y i)"
    by (simp add: Sxy_def sum_list_zip_nth[OF len] X_def Y_def n_def)
  have sr: "(\<Sum>i<n. r i) = 0"
    by (simp add: r_def sum_subtractf sY sX sum_distrib_left[symmetric])
  have srX: "(\<Sum>i<n. r i * X i) = 0"
  proof -
    have "(\<Sum>i<n. r i * X i) = (\<Sum>i<n. X i * Y i) - b * (\<Sum>i<n. X i * X i)"
      by (simp add: r_def sum_subtractf sum_distrib_left algebra_simps)
    also have "\<dots> = 0" using nd by (simp add: xx[symmetric] xy[symmetric] b_def)
    finally show ?thesis .
  qed
  have s0: "sse a b xs ys = (\<Sum>i<n. r i * r i)"
    by (simp add: sse_def sum_list_zip_nth[OF len] n_def r_def X_def Y_def a_def
          power2_eq_square algebra_simps)
  have t: "ys ! i - (a' + b' * xs ! i) = r i + (c + e * X i)" for i
    by (simp add: r_def c_def e_def X_def Y_def a_def algebra_simps)
  have "sse a' b' xs ys = (\<Sum>i<n. (r i + (c + e * X i)) * (r i + (c + e * X i)))"
    by (simp add: sse_def sum_list_zip_nth[OF len] n_def t power2_eq_square)
  also have "\<dots> = (\<Sum>i<n. r i * r i + 2 * c * r i + 2 * e * (r i * X i) + (c + e * X i) * (c + e * X i))"
    by (intro sum.cong) (auto simp: algebra_simps)
  also have "\<dots> = (\<Sum>i<n. r i * r i) + 2 * c * (\<Sum>i<n. r i) + 2 * e * (\<Sum>i<n. r i * X i)
        + (\<Sum>i<n. (c + e * X i) * (c + e * X i))"
    by (simp add: sum.distrib sum_distrib_left)
  also have "\<dots> = sse a b xs ys + (\<Sum>i<n. (c + e * X i) * (c + e * X i))"
    by (simp add: sr srX s0)
  finally have "sse a' b' xs ys = sse a b xs ys + (\<Sum>i<n. (c + e * X i) * (c + e * X i))" .
  moreover have "0 \<le> (\<Sum>i<n. (c + e * X i) * (c + e * X i))"
    by (intro sum_nonneg) simp
  ultimately show ?thesis by simp
qed

lemma const_sum_list: "list_all (\<lambda>v. v = c) x \<Longrightarrow> sum_list x = real (length x) * c"
  by (induction x) (auto simp: algebra_simps)

lemma sum_list_all_zero: "(\<forall>v\<in>set x. f v = 0) \<Longrightarrow> sum_list (map f x) = (0::real)"
  by (induction x) auto

lemma const_Sxx_zero:
  assumes "list_all (\<lambda>v. v = hd x) x"
  shows "Sxx x = 0"
proof (cases "x = []")
  case True
  then show ?thesis by (simp add: Sxx_def)
next
  case False
  then have "mean x = hd x" using const_sum_list[OF assms] by (simp add: mean_def)
  moreover have "\<forall>v\<in>set x. v = hd x" using assms by (simp add: list_all_iff)
  ultimately have "\<forall>v\<in>set x. (v - mean x)\<^sup>2 = 0" by simp
  then show ?thesis unfolding Sxx_def by (rule sum_list_all_zero)
qed

lemma hedge_ratio_slope:
  assumes "10 \<le> length (aligned px_x px_y)"
    and "Sxx (map (\<lambda>(t, vx, vy). vy) (aligned px_x px_y)) \<noteq> 0"
  shows "compute_hedge_ratio px_x px_y =
     Inr (Some (Sxy (map (\<lambda>(t, vx, vy). vy) (aligned px_x px_y))
                    (map (\<lambda>(t, vx, vy). vx) (aligned px_x px_y))
              / Sxx (map (\<lambda>(t, vx, vy). vy) (aligned px_x px_y))))"
proof -
  have "add_constant (map (\<lambda>(t, vx, vy). vy) (aligned px_x px_y))
      = Ones_And_Regressor (map (\<lambda>(t, vx, vy). vy) (aligned px_x px_y))"
    using assms(2) const_Sxx_zero by (auto simp: add_constant_def)
  then show ?thesis using assms
    by (simp add: compute_hedge_ratio_def Let_def OLS_fit_params_def)
qed

lemma ex_hedge_ratio: "compute_hedge_ratio ex_x ex_y = Inr (Some 2)"
  by code_simp

lemma ex_spread_eq: "series_binop (-) ex_x (scalar_mul 2 ex_y) = ex_spread"
  by code_simp

lemma ex_rolling_mean:
  "rolling_mean 4 2 (map snd ex_spread) =
     [None, None, Some 0, Some 0, Some 0, Some 0, Some 0, Some 0, Some 0, Some 0, Some 0, Some 0]"
  by code_simp

lemma ex_rolling_var:
  "rolling_var 4 2 (map snd ex_spread) =
     [None, None, Some 0, Some 0, Some 0, Some 0, Some 0, Some 0, Some 0, Some 0, Some 0, Some 0]"
  by code_simp

lemma ex_rolling_std:
  "rolling_std 4 2 (map snd ex_spread) =
     [None, None, Some 0, Some 0, Some 0, Some 0, Some 0, Some 0, Some 0, Some 0, Some 0, Some 0]"
  by (simp add: rolling_std_def ex_rolling_var)

lemma ex_spread_list:
  "ex_spread = [(0, None), (1, Some 0), (2, Some 0), (3, Some 0), (4, Some 0), (5, Some 0),
     (6, Some 0), (7, Some 0), (8, Some 0), (9, Some 0), (10, Some 0), (11, None)]"
  by code_simp

lemma ex_rolling_zscore:
  "rolling_zscore 4 ex_spread =
     Inr [(0, NaN), (1, NaN), (2, NaN), (3, NaN), (4, NaN), (5, NaN), (6, NaN), (7, NaN),
          (8, NaN), (9, NaN), (10, NaN), (11, NaN)]"
  by (simp add: rolling_zscore_def ex_rolling_mean ex_rolling_std) (simp add: ex_spread_list)

subsection \<open>The spread and its index\<close>

text \<open>
  C5, as stated, lets the spread range over the labels that both series have. In the
  example, label 0 is in X only and label 11 in Y only, and the spread has an entry, NaN,
  at each of them.
\<close>

theorem spread_inner_join_counterexample:
  "compute_spread_and_zscore ex_x ex_y 4 =
     Inr ([(0, None), (1, Some 0), (2, Some 0), (3, Some 0), (4, Some 0), (5, Some 0),
           (6, Some 0), (7, Some 0), (8, Some 0), (9, Some 0), (10, Some 0), (11, None)],
          [(0, NaN), (1, NaN), (2, NaN), (3, NaN), (4, NaN), (5, NaN), (6, NaN), (7, NaN),
           (8, NaN), (9, NaN), (10, NaN), (11, NaN)])"
  by (simp add: compute_spread_and_zscore_def ex_hedge_ratio ex_spread_eq ex_rolling_zscore)
    (simp add: ex_spread_list)

text \<open>
  C5, amended. When the hedge ratio \<open>b\<close> is available (it is fitted on the inner join of
  the two series without NaN rows) and the window is not negative, the spread has exactly
  one entry for each label of either series. At a label where both series have a value,
  the entry is X minus \<open>b\<close> times Y; at every other label it is NaN.
\<close>

theorem spread_over_union_index:
  assumes hr: "compute_hedge_ratio px_x px_y = Inr (Some b)" and w: "0 \<le> window"
    and dx: "distinct (map fst px_x)" and dy: "distinct (map fst px_y)"
  shows "\<exists>spread z. compute_spread_and_zscore px_x px_y window = Inr (spread, z)
     \<and> distinct (map fst spread)
     \<and> set (map fst spread) = set (map fst px_x) \<union> set (map fst px_y)
     \<and> (\<forall>t x y. (t, Some x) \<in> set px_x \<and> (t, Some y) \<in> set px_y
           \<longrightarrow> (t, Some (x - b * y)) \<in> set spread)
     \<and> (\<forall>t\<in>set (map fst spread).
           \<not> (\<exists>x y. (t, Some x) \<in> set px_x \<and> (t, Some y) \<in> set px_y)
           \<longrightarrow> (t, None) \<in> set spread)"
proof -
  define spread where "spread = series_binop (-) px_x (scalar_mul b px_y)"
  from rolling_zscore_ok[OF w] obtain z where z: "rolling_zscore window spread = Inr z" by blast
  have r: "compute_spread_and_zscore px_x px_y window = Inr (spread, z)"
    by (simp add: compute_spread_and_zscore_def hr spread_def[symmetric] z)
  have d: "distinct (map fst spread)" unfolding spread_def using dx by (rule series_binop_distinct)
  have s: "set (map fst spread) = set (map fst px_x) \<union> set (map fst px_y)"
    using series_binop_index[of "(-)" px_x "scalar_mul b px_y"] by (simp add: spread_def)
  have e: "(t, case (map_of px_x t, map_of px_y t) of
                (Some (Some x), Some (Some y)) \<Rightarrow> Some (x - b * y) | _ \<Rightarrow> None) \<in> set spread"
    if "t \<in> set (map fst spread)" for t
  proof -
    have "(case (map_of px_x t, map_of (scalar_mul b px_y) t) of
                (Some (Some x), Some (Some y)) \<Rightarrow> Some (x - y) | _ \<Rightarrow> None)
        = (case (map_of px_x t, map_of px_y t) of
                (Some (Some x), Some (Some y)) \<Rightarrow> Some (x - b * y) | _ \<Rightarrow> None)"
      by (simp add: map_of_scalar_mul split: option.splits)
    with series_binop_entry[OF that[unfolded spread_def]] show ?thesis
      by (simp add: spread_def)
  qed
  have v1: "(t, Some (x - b * y)) \<in> set spread"
    if "(t, Some x) \<in> set px_x \<and> (t, Some y) \<in> set px_y" for t x y
  proof -
    from that dx dy have m: "map_of px_x t = Some (Some x)" "map_of px_y t = Some (Some y)"
      by simp_all
    from that have "t \<in> set (map fst px_x)" by force
    with s have "t \<in> set (map fst spread)" by simp
    from e[OF this] m show ?thesis by simp
  qed
  have v2: "(t, None) \<in> set spread"
    if t: "t \<in> set (map fst spread)"
      and n: "\<not> (\<exists>x y. (t, Some x) \<in> set px_x \<and> (t, Some y) \<in> set px_y)" for t
  proof -
    have "(case (map_of px_x t, map_of px_y t) of
                (Some (Some x), Some (Some y)) \<Rightarrow> Some (x - b * y) | _ \<Rightarrow> None) = None"
      using n by (auto split: option.splits dest: map_of_SomeD)
    with e[OF t] show ?thesis by simp
  qed
  show ?thesis using r d s v1 v2 by blast
qed

theorem spread_over_union_index_witness:
  "compute_hedge_ratio ex_x ex_y = Inr (Some 2) \<and> (0::int) \<le> 4
   \<and> distinct (map fst ex_x) \<and> distinct (map fst ex_y)
   \<and> (\<exists>spread z. compute_spread_and_zscore ex_x ex_y 4 = Inr (spread, z)
        \<and> set (map fst spread) = set (map fst ex_x) \<union> set (map fst ex_y)
        \<and> (1, Some (2 - 2 * 1)) \<in> set spread \<and> (0, None) \<in> set spread)"
proof -
  have h: "compute_hedge_ratio ex_x ex_y = Inr (Some 2)" by (rule ex_hedge_ratio)
  have w: "(0::int) \<le> 4" by simp
  have dx: "distinct (map fst ex_x)" by code_simp
  have dy: "distinct (map fst ex_y)" by code_simp
  have m: "(1, Some 2) \<in> set ex_x \<and> (1, Some 1) \<in> set ex_y" by code_simp
  have z: "0 \<in> set (map fst ex_x)" by code_simp
  have n: "0 \<notin> set (map fst ex_y)" by code_simp
  then have n': "\<not> (\<exists>x y. (0, Some x) \<in> set ex_x \<and> (0, Some y) \<in> set ex_y)" by force
  from spread_over_union_index[OF h w dx dy] obtain spread z' where
    r: "compute_spread_and_zscore ex_x ex_y 4 = Inr (spread, z')"
    and s: "set (map fst spread) = set (map fst ex_x) \<union> set (map fst ex_y)"
    and v1: "\<forall>t x y. (t, Some x) \<in> set ex_x \<and> (t, Some y) \<in> set ex_y
           \<longrightarrow> (t, Some (x - 2 * y)) \<in> set spread"
    and v2: "\<forall>t\<in>set (map fst spread).
           \<not> (\<exists>x y. (t, Some x) \<in> set ex_x \<and> (t, Some y) \<in> set ex_y)
           \<longrightarrow> (t, None) \<in> set spread"
    by blast
  from v1 m have a: "(1, Some (2 - 2 * 1)) \<in> set spread" by blast
  from z s have "0 \<in> set (map fst spread)" by simp
  with v2 n' have b: "(0, None) \<in> set spread" by blast
  show ?thesis using h w dx dy r s a b by blast
qed

subsection \<open>The hedge ratio on a constant regressor\<close>

text \<open>
  C6. On ten aligned rows whose Y stays at 1, \<open>add_constant\<close> adds no column, the fit has
  one coefficient, and \<open>params[1]\<close> raises \<open>IndexError\<close>: the function returns neither a
  slope nor the NaN of too few rows.
\<close>

theorem hedge_ratio_constant_regressor_raises:
  "length (aligned ex_x flat_y) = 10 \<and> compute_hedge_ratio ex_x flat_y = Inl IndexError"
  by code_simp

subsection \<open>Rolling statistics and the z-score\<close>




subsection \<open>Too few aligned observations\<close>

text \<open>
  C10. For two series with unique labels that have fewer than ten aligned rows without
  NaN, and for every window, \<open>compute_spread_and_zscore\<close> returns two empty series: no
  error, and no entry at all.
\<close>

theorem few_observations_empty_series:
  assumes "distinct (map fst px_x)" "distinct (map fst px_y)"
    and "length (aligned px_x px_y) < 10"
  shows "compute_spread_and_zscore px_x px_y window = Inr ([], [])"
  using assms(3) by (simp add: compute_spread_and_zscore_def hedge_ratio_few)

theorem few_observations_empty_series_witness:
  "distinct (map fst short_x) \<and> distinct (map fst short_y)
   \<and> length (aligned short_x short_y) < 10
   \<and> compute_spread_and_zscore short_x short_y (- 3) = Inr ([], [])"
proof -
  have dx: "distinct (map fst short_x)" by code_simp
  have dy: "distinct (map fst short_y)" by code_simp
  have l: "length (aligned short_x short_y) < 10" by code_simp
  show ?thesis using dx dy l few_observations_empty_series[OF dx dy l, of "- 3"] by blast
qed

end
